theory Spec2Isabelle
  imports Main
begin

section \<open>The Python operations the game relies on\<close>

text \<open>
  The program is one Python module, \<^verbatim>\<open>dicegame.py\<close>. Exceptions and \<^verbatim>\<open>sys.exit\<close> are
  values of the type \<open>error\<close>; a function that may raise returns \<open>error + 'a\<close>.
  Text is ASCII (\<open>string\<close>), integers are unbounded (\<open>int\<close>). Two limits of the
  interpreter are left out of the model: the recursion limit (the retries are recursive
  calls) and the limit on the number of digits \<^verbatim>\<open>int()\<close> converts.
\<close>

datatype error =
    ValueError
  | IndexError
  | TypeError
  | ZeroDivisionError
  | EOFError
  | SystemExit nat

text \<open>\<^verbatim>\<open>xs[i]\<close>: a negative index counts from the end, anything else out of range raises.\<close>

definition py_index :: "'a list \<Rightarrow> int \<Rightarrow> error + 'a" where
  "py_index xs i =
     (let n = int (length xs); j = (if i < 0 then i + n else i)
      in if 0 \<le> j \<and> j < n then Inr (xs ! nat j) else Inl IndexError)"

text \<open>\<^verbatim>\<open>a % b\<close> on integers: the result has the sign of \<open>b\<close>, as \<open>mod\<close> on \<open>int\<close> has.\<close>

definition py_mod :: "int \<Rightarrow> int \<Rightarrow> error + int" where
  "py_mod a b = (if b = 0 then Inl ZeroDivisionError else Inr (a mod b))"

text \<open>\<^verbatim>\<open>str(n)\<close> for an integer, and the \<^verbatim>\<open>repr\<close> of a list of integers.\<close>

definition digit_char :: "nat \<Rightarrow> char" where
  "digit_char d = char_of (48 + d)"

fun str_nat :: "nat \<Rightarrow> string" where
  "str_nat n = (if n < 10 then [digit_char n] else str_nat (n div 10) @ [digit_char (n mod 10)])"

declare str_nat.simps [simp del]

definition py_str :: "int \<Rightarrow> string" where
  "py_str i = (if i < 0 then CHR ''-'' # str_nat (nat (- i)) else str_nat (nat i))"

fun join_str :: "string \<Rightarrow> string list \<Rightarrow> string" where
  "join_str sep [] = []"
| "join_str sep [x] = x"
| "join_str sep (x # y # ys) = x @ sep @ join_str sep (y # ys)"

definition py_repr :: "int list \<Rightarrow> string" where
  "py_repr xs = ''['' @ join_str '', '' (map py_str xs) @ '']''"

text \<open>\<^verbatim>\<open>s.isdigit()\<close> on ASCII text: non-empty and decimal digits only.\<close>

definition is_digit :: "char \<Rightarrow> bool" where
  "is_digit c = (48 \<le> (of_char c :: nat) \<and> (of_char c :: nat) \<le> 57)"

definition isdigit :: "string \<Rightarrow> bool" where
  "isdigit s = (s \<noteq> [] \<and> list_all is_digit s)"

text \<open>
  \<^verbatim>\<open>int(s)\<close> on ASCII text, \<open>None\<close> for ValueError: white space around the literal is
  dropped, one sign may lead, and single underscores may stand between digits.
\<close>

definition is_space :: "char \<Rightarrow> bool" where
  "is_space c = (of_char c \<in> {9::nat, 10, 11, 12, 13, 28, 29, 30, 31, 32})"

definition strip :: "string \<Rightarrow> string" where
  "strip s = rev (dropWhile is_space (rev (dropWhile is_space s)))"

definition digit_val :: "char \<Rightarrow> nat" where
  "digit_val c = of_char c - 48"

fun parse_digits :: "nat \<Rightarrow> string \<Rightarrow> nat option" where
  "parse_digits acc [] = Some acc"
| "parse_digits acc (c # cs) =
     (if is_digit c then parse_digits (10 * acc + digit_val c) cs
      else if c = CHR ''_'' then
        (case cs of
           [] \<Rightarrow> None
         | d # ds \<Rightarrow> if is_digit d then parse_digits (10 * acc + digit_val d) ds else None)
      else None)"

definition parse_nat :: "string \<Rightarrow> nat option" where
  "parse_nat s =
     (case s of
        [] \<Rightarrow> None
      | c # cs \<Rightarrow> if is_digit c then parse_digits (digit_val c) cs else None)"

definition py_int :: "string \<Rightarrow> int option" where
  "py_int s =
     (case strip s of
        [] \<Rightarrow> None
      | c # cs \<Rightarrow>
          if c = CHR ''-'' then map_option (\<lambda>n. - int n) (parse_nat cs)
          else if c = CHR ''+'' then map_option int (parse_nat cs)
          else map_option int (parse_nat (c # cs)))"

text \<open>\<^verbatim>\<open>s.split(sep)\<close> with a one-character separator.\<close>

fun split_on :: "char \<Rightarrow> string \<Rightarrow> string list" where
  "split_on sep [] = [[]]"
| "split_on sep (c # cs) =
     (if c = sep then [] # split_on sep cs
      else (case split_on sep cs of
              [] \<Rightarrow> [[c]]
            | w # ws \<Rightarrow> (c # w) # ws))"

text \<open>
  \<^verbatim>\<open>key.hex()\<close> writes each byte as two lower-case hexadecimal digits. \<open>fromhex\<close> is the
  inverse reading (\<^verbatim>\<open>bytes.fromhex\<close>) that someone checking a commitment applies to the
  printed key; the program itself never calls it.
\<close>

definition hex_digit :: "nat \<Rightarrow> char" where
  "hex_digit d = (if d < 10 then char_of (48 + d) else char_of (87 + d))"

definition hex :: "string \<Rightarrow> string" where
  "hex bs = concat (map (\<lambda>b. [hex_digit (of_char b div 16), hex_digit (of_char b mod 16)]) bs)"

definition hex_val :: "char \<Rightarrow> nat option" where
  "hex_val c =
     (let n = of_char c :: nat
      in if 48 \<le> n \<and> n \<le> 57 then Some (n - 48)
         else if 97 \<le> n \<and> n \<le> 102 then Some (n - 87)
         else if 65 \<le> n \<and> n \<le> 70 then Some (n - 55)
         else None)"

fun fromhex :: "string \<Rightarrow> string option" where
  "fromhex [] = Some []"
| "fromhex [a] = None"
| "fromhex (a # b # r) =
     (case (hex_val a, hex_val b, fromhex r) of
        (Some h, Some l, Some bs) \<Rightarrow> Some (char_of (16 * h + l) # bs)
      | _ \<Rightarrow> None)"

section \<open>FairRandom\<close>

text \<open>
  The library calls of \<^verbatim>\<open>generate_secure_random\<close> are parameters of the model:
  \<open>token_bytes src t\<close> is the key the \<open>t\<close>-th draw gets from \<^verbatim>\<open>secrets.token_bytes(32)\<close>,
  \<open>entropy src t\<close> the randomness behind the \<open>t\<close>-th \<^verbatim>\<open>secrets.randbelow\<close> or
  \<^verbatim>\<open>random.choice\<close>, and \<open>hmac_sha3_256 src key msg\<close> the hexadecimal digest of
  \<^verbatim>\<open>hmac.new(key, msg, hashlib.sha3_256)\<close>. A draw below \<open>limit\<close> is
  \<open>entropy src t mod limit\<close>: as the entropy is arbitrary this ranges over exactly the
  values \<open>0 .. limit - 1\<close> the library may return. \<^verbatim>\<open>randbelow\<close> raises ValueError when
  the limit is not positive.
\<close>

record source =
  token_bytes :: "nat \<Rightarrow> string"
  entropy :: "nat \<Rightarrow> nat"
  hmac_sha3_256 :: "string \<Rightarrow> string \<Rightarrow> string"

definition randbelow :: "source \<Rightarrow> nat \<Rightarrow> int \<Rightarrow> error + int" where
  "randbelow src t limit =
     (if limit \<le> 0 then Inl ValueError else Inr (int (entropy src t) mod limit))"

definition generate_secure_random ::
  "source \<Rightarrow> nat \<Rightarrow> int \<Rightarrow> error + (int \<times> string \<times> string)" where
  "generate_secure_random src t limit =
     (let key = token_bytes src t
      in case randbelow src t limit of
           Inl e \<Rightarrow> Inl e
         | Inr number \<Rightarrow>
             Inr (number, hex key, hmac_sha3_256 src key (py_str number)))"

definition compute_modular_result :: "int \<Rightarrow> int \<Rightarrow> int \<Rightarrow> error + int" where
  "compute_modular_result user_choice computer_choice limit =
     py_mod (user_choice + computer_choice) limit"

section \<open>Dice\<close>

text \<open>
  The constructor rejects a negative face (every face is an \<^verbatim>\<open>int\<close> here, so the
  \<^verbatim>\<open>isinstance\<close> test never fails). \<open>roll\<close> is plain list indexing.
\<close>

record dice =
  faces :: "int list"

definition Dice :: "int list \<Rightarrow> error + dice" where
  "Dice vs = (if list_all (\<lambda>v. 0 \<le> v) vs then Inr \<lparr>faces = vs\<rparr> else Inl ValueError)"

definition roll :: "dice \<Rightarrow> int \<Rightarrow> error + int" where
  "roll d face_index = py_index (faces d) face_index"

section \<open>Players, the game object and what the terminal sees\<close>

text \<open>
  The two \<^verbatim>\<open>Player\<close> objects are \<open>User\<close> and \<open>Computer\<close>; their \<^verbatim>\<open>dice_choice\<close> fields
  are kept in the game state (\<open>None\<close> until a die is chosen). Every choice the program
  stores is a non-negative index, so it is a \<open>nat\<close>.

  The terminal is a list of events, oldest first. \<open>Print_hmac hi tag\<close> is the line
  \<^verbatim>\<open>I selected a random value in the range 0..hi (HMAC=tag).\<close>, \<open>Print_key n key\<close> the
  line \<^verbatim>\<open>My selection: n (KEY=key).\<close> of the first-move step and \<^verbatim>\<open>My number is n (KEY=key).\<close>
  of a roll, \<open>Print_exception e\<close> the line \<^verbatim>\<open>Error: ...\<close> with the message of \<open>e\<close>,
  \<open>Input l\<close> a call of \<^verbatim>\<open>input("Your selection: ")\<close> that returned \<open>l\<close>, and \<open>Print l\<close>
  any other printed line. The lines the user will type are a list; reading from the empty
  list is the end of input, EOFError.
\<close>

datatype player = User | Computer

fun name :: "player \<Rightarrow> string" where
  "name User = ''User''"
| "name Computer = ''Computer''"

datatype event =
    Print string
  | Print_hmac int string
  | Print_key int string
  | Print_exception error
  | Input string

record state =
  dice :: "dice list"
  user_choice :: "nat option"
  computer_choice :: "nat option"
  out :: "event list"
  tick :: nat

definition emit :: "event list \<Rightarrow> state \<Rightarrow> state" where
  "emit es s = s\<lparr>out := out s @ es\<rparr>"

definition next_tick :: "state \<Rightarrow> state" where
  "next_tick s = s\<lparr>tick := Suc (tick s)\<rparr>"

fun dice_choice :: "player \<Rightarrow> state \<Rightarrow> nat option" where
  "dice_choice User s = user_choice s"
| "dice_choice Computer s = computer_choice s"

fun set_dice_choice :: "player \<Rightarrow> nat \<Rightarrow> state \<Rightarrow> state" where
  "set_dice_choice User c s = s\<lparr>user_choice := Some c\<rparr>"
| "set_dice_choice Computer c s = s\<lparr>computer_choice := Some c\<rparr>"

text \<open>\<^verbatim>\<open>random.choice(xs)\<close>: any element of \<open>xs\<close>; IndexError on the empty list.\<close>

definition random_choice :: "source \<Rightarrow> nat \<Rightarrow> 'a list \<Rightarrow> error + 'a" where
  "random_choice src t xs =
     (if xs = [] then Inl IndexError else Inr (xs ! (entropy src t mod length xs)))"

subsection \<open>Player.choose_dice\<close>

definition dice_menu :: "dice list \<Rightarrow> event list" where
  "dice_menu available_dice =
     map (\<lambda>(idx, d). Print (py_str (int idx) @ '' - '' @ py_repr (faces d)))
       (enumerate 0 available_dice)"

fun choose_dice ::
  "player \<Rightarrow> dice list \<Rightarrow> string list \<Rightarrow> state \<Rightarrow> (error + unit) \<times> string list \<times> state" where
  "choose_dice p available_dice ins s =
     (let s1 = emit (Print (name p @ '', choose your dice:'') # dice_menu available_dice) s
      in case ins of
           [] \<Rightarrow> (Inl EOFError, [], s1)
         | choice # rest \<Rightarrow>
             let s2 = emit [Input choice] s1
             in if \<not> isdigit choice then
                  choose_dice p available_dice rest (emit [Print ''Invalid selection. Try again.''] s2)
                else
                  (case py_int choice of
                     None \<Rightarrow> (Inl ValueError, rest, s2)
                   | Some v \<Rightarrow>
                       if \<not> (0 \<le> v \<and> v < int (length available_dice)) then
                         choose_dice p available_dice rest
                           (emit [Print ''Invalid selection. Try again.''] s2)
                       else
                         let s3 = set_dice_choice p (nat v) s2
                         in (case py_index available_dice v of
                               Inl e \<Rightarrow> (Inl e, rest, s3)
                             | Inr d \<Rightarrow>
                                 (Inr (), rest,
                                  emit [Print (name p @ '' chose dice: '' @ py_repr (faces d))] s3))))"

declare choose_dice.simps [simp del]

subsection \<open>DiceGame.__init__\<close>

fun ints_of :: "string list \<Rightarrow> error + int list" where
  "ints_of [] = Inr []"
| "ints_of (x # xs) =
     (case py_int x of
        None \<Rightarrow> Inl ValueError
      | Some v \<Rightarrow> (case ints_of xs of Inl e \<Rightarrow> Inl e | Inr vs \<Rightarrow> Inr (v # vs)))"

fun dice_of :: "string list \<Rightarrow> error + dice list" where
  "dice_of [] = Inr []"
| "dice_of (d # ds) =
     (case ints_of (split_on CHR '','' d) of
        Inl e \<Rightarrow> Inl e
      | Inr vs \<Rightarrow>
          (case Dice vs of
             Inl e \<Rightarrow> Inl e
           | Inr x \<Rightarrow> (case dice_of ds of Inl e \<Rightarrow> Inl e | Inr xs \<Rightarrow> Inr (x # xs))))"

definition usage :: "event list" where
  "usage =
     [Print ''Error: You must specify at least 3 dice configurations.'',
      Print ''Example: python dicegame.py 2,2,4,4,9,9 6,8,1,1,8,6 7,5,3,7,5,3'']"

text \<open>
  The constructor returns the new game, or the exit status together with what it printed.
\<close>

definition DiceGame :: "string list \<Rightarrow> (error \<times> event list) + state" where
  "DiceGame dice_sets =
     (if length dice_sets < 3 then Inl (SystemExit 1, usage)
      else case dice_of dice_sets of
             Inl e \<Rightarrow> Inl (SystemExit 1, [Print_exception e])
           | Inr ds \<Rightarrow>
               Inr \<lparr>dice = ds, user_choice = None, computer_choice = None, out = [], tick = 0\<rparr>)"

subsection \<open>DiceGame.determine_first_turn\<close>

text \<open>
  The method is split at the call of \<^verbatim>\<open>generate_secure_random\<close>: \<open>determine_first_turn\<close>
  is the method up to and including that call, \<open>first_turn_exchange\<close> is the rest of its
  body, with the values of the local variables \<^verbatim>\<open>comp_num\<close>, \<^verbatim>\<open>comp_key\<close> and
  \<^verbatim>\<open>comp_hmac\<close> as its second argument. An invalid guess calls the whole method again.
\<close>

definition first_turn_menu :: string where
  "first_turn_menu =
     ''0 - 0'' @ [CHR 0x0A] @ ''1 - 1'' @ [CHR 0x0A] @ ''2 - Exit'' @ [CHR 0x0A] @ ''3 - Help''"

fun determine_first_turn ::
    "source \<Rightarrow> string list \<Rightarrow> state \<Rightarrow> (error + player) \<times> string list \<times> state"
  and first_turn_exchange ::
    "source \<Rightarrow> int \<times> string \<times> string \<Rightarrow> string list \<Rightarrow> state \<Rightarrow>
       (error + player) \<times> string list \<times> state"
where
  "determine_first_turn src ins s =
     (let s1 = emit [Print ''Let's determine who makes the first move.''] s
      in case generate_secure_random src (tick s1) 2 of
           Inl e \<Rightarrow> (Inl e, ins, s1)
         | Inr commitment \<Rightarrow> first_turn_exchange src commitment ins (next_tick s1))"
| "first_turn_exchange src (comp_num, comp_key, comp_hmac) ins s =
     (let s1 = emit [Print_hmac 1 comp_hmac, Print ''Try to guess my selection.'',
                     Print first_turn_menu] s
      in case ins of
           [] \<Rightarrow> (Inl EOFError, [], s1)
         | user_guess # rest \<Rightarrow>
             let s2 = emit [Input user_guess] s1
             in if user_guess = ''2'' then (Inl (SystemExit 0), rest, s2)
                else if \<not> isdigit user_guess then
                  determine_first_turn src rest
                    (emit [Print ''Invalid input! Please enter 0 or 1.''] s2)
                else
                  (case py_int user_guess of
                     None \<Rightarrow> (Inl ValueError, rest, s2)
                   | Some g \<Rightarrow>
                       if g \<notin> set [0, 1] then
                         determine_first_turn src rest
                           (emit [Print ''Invalid input! Please enter 0 or 1.''] s2)
                       else
                         let s3 = emit [Print_key comp_num comp_key] s2
                         in if g = comp_num then
                              (Inr User, rest,
                               emit [Print ''You guessed correctly! You go first.''] s3)
                            else (Inr Computer, rest, emit [Print ''I go first.''] s3)))"

declare determine_first_turn.simps [simp del]
declare first_turn_exchange.simps [simp del]

subsection \<open>DiceGame.roll_dice\<close>

text \<open>
  Split like the first-move step: \<open>roll_dice\<close> up to the call of
  \<^verbatim>\<open>generate_secure_random\<close>, \<open>roll_exchange\<close> from there on with the values of
  \<^verbatim>\<open>face\<close>, \<^verbatim>\<open>key\<close> and \<^verbatim>\<open>hmac_value\<close>. The line \<^verbatim>\<open>Choose a number to add\<close> is not an
  f-string in the source, so its braces are printed as they stand. The parameter
  \<^verbatim>\<open>modulo\<close> is written \<open>modulo'\<close>, and \<open>thrown player s final_index\<close> is the returned
  expression \<^verbatim>\<open>self.dice[player.dice_choice].roll(final_index)\<close>.
\<close>

definition thrown :: "player \<Rightarrow> state \<Rightarrow> int \<Rightarrow> error + int" where
  "thrown player s final_index =
     (case dice_choice player s of
        None \<Rightarrow> Inl TypeError
      | Some c \<Rightarrow>
          (case py_index (dice s) (int c) of
             Inl e \<Rightarrow> Inl e
           | Inr d \<Rightarrow> roll d final_index))"

definition roll_menu :: "int \<Rightarrow> event list" where
  "roll_menu modulo' =
     map (\<lambda>i. Print (py_str i @ '' - '' @ py_str i)) (map int [0..<nat modulo'])
     @ [Print (py_str modulo' @ '' - Exit''), Print (py_str (modulo' + 1) @ '' - Help'')]"

fun roll_dice ::
    "source \<Rightarrow> player \<Rightarrow> int \<Rightarrow> string list \<Rightarrow> state \<Rightarrow> (error + int) \<times> string list \<times> state"
  and roll_exchange ::
    "source \<Rightarrow> player \<Rightarrow> int \<Rightarrow> int \<times> string \<times> string \<Rightarrow> string list \<Rightarrow> state \<Rightarrow>
       (error + int) \<times> string list \<times> state"
where
  "roll_dice src player modulo' ins s =
     (let s1 = emit [Print (''It's time for '' @ name player @ [CHR 0x27] @ ''s throw.'')] s
      in case generate_secure_random src (tick s1) modulo' of
           Inl e \<Rightarrow> (Inl e, ins, s1)
         | Inr commitment \<Rightarrow> roll_exchange src player modulo' commitment ins (next_tick s1))"
| "roll_exchange src player modulo' (face, key, hmac_value) ins s =
     (let s1 = emit ([Print_hmac (modulo' - 1) hmac_value,
                      Print ''Choose a number to add (modulo {modulo}):'']
                     @ roll_menu modulo') s
      in case ins of
           [] \<Rightarrow> (Inl EOFError, [], s1)
         | user_add # rest \<Rightarrow>
             let s2 = emit [Input user_add] s1
             in if user_add = py_str modulo' then (Inl (SystemExit 0), rest, s2)
                else if \<not> isdigit user_add then
                  roll_dice src player modulo' rest
                    (emit [Print ''Invalid selection. Try again.''] s2)
                else
                  (case py_int user_add of
                     None \<Rightarrow> (Inl ValueError, rest, s2)
                   | Some a \<Rightarrow>
                       if \<not> (0 \<le> a \<and> a < modulo') then
                         roll_dice src player modulo' rest
                           (emit [Print ''Invalid selection. Try again.''] s2)
                       else
                         (case compute_modular_result a face modulo' of
                            Inl e \<Rightarrow> (Inl e, rest, s2)
                          | Inr final_index \<Rightarrow>
                              let s3 = emit
                                    [Print_key face key,
                                     Print (''The result is '' @ py_str face @ '' + '' @ py_str a
                                            @ '' = '' @ py_str final_index
                                            @ '' (mod '' @ py_str modulo' @ '').'')] s2
                              in (thrown player s3 final_index, rest, s3))))"

declare roll_dice.simps [simp del]
declare roll_exchange.simps [simp del]

subsection \<open>DiceGame.play_round\<close>

text \<open>
  \<open>select xs is\<close> is the comprehension \<^verbatim>\<open>[xs[idx] for idx in is]\<close>. \<open>assign_dice\<close> is the
  \<^verbatim>\<open>if first_turn == self.computer: ... else: ...\<close> block of \<^verbatim>\<open>play_round\<close>, in which both
  players get their \<^verbatim>\<open>dice_choice\<close>; \<open>play_round\<close> runs the first-move step, this block,
  the two rolls (with the default \<^verbatim>\<open>modulo=6\<close>, as neither call passes one) and the
  comparison. The verdict it returns is the last line it prints.
\<close>

fun select :: "'a list \<Rightarrow> nat list \<Rightarrow> error + 'a list" where
  "select xs [] = Inr []"
| "select xs (i # is) =
     (case py_index xs (int i) of
        Inl e \<Rightarrow> Inl e
      | Inr x \<Rightarrow> (case select xs is of Inl e \<Rightarrow> Inl e | Inr ys \<Rightarrow> Inr (x # ys)))"

definition assign_dice ::
  "source \<Rightarrow> player \<Rightarrow> string list \<Rightarrow> state \<Rightarrow> (error + unit) \<times> string list \<times> state" where
  "assign_dice src first_turn ins s =
     (if first_turn = Computer then
        (let s1 = emit [Print ''I make the first move and choose a dice.''] s;
             available_dice = [0..<length (dice s1)]
         in case random_choice src (tick s1) available_dice of
              Inl e \<Rightarrow> (Inl e, ins, s1)
            | Inr c \<Rightarrow>
                let s2 = set_dice_choice Computer c (next_tick s1);
                    available_dice = remove1 c available_dice
                in (case py_index (dice s2) (int c) of
                      Inl e \<Rightarrow> (Inl e, ins, s2)
                    | Inr d \<Rightarrow>
                        let s3 = emit [Print (''I choose dice: '' @ py_repr (faces d))] s2
                        in (case select (dice s3) available_dice of
                              Inl e \<Rightarrow> (Inl e, ins, s3)
                            | Inr ds \<Rightarrow> choose_dice User ds ins s3)))
      else
        (case choose_dice User (dice s) ins s of
           (Inl e, ins1, s1) \<Rightarrow> (Inl e, ins1, s1)
         | (Inr u, ins1, s1) \<Rightarrow>
             let available_dice = filter (\<lambda>i. Some i \<noteq> user_choice s1) [0..<length (dice s1)]
             in (case random_choice src (tick s1) available_dice of
                   Inl e \<Rightarrow> (Inl e, ins1, s1)
                 | Inr c \<Rightarrow>
                     let s2 = set_dice_choice Computer c (next_tick s1)
                     in (case py_index (dice s2) (int c) of
                           Inl e \<Rightarrow> (Inl e, ins1, s2)
                         | Inr d \<Rightarrow>
                             (Inr (), ins1,
                              emit [Print (''I choose dice: '' @ py_repr (faces d))] s2)))))"

datatype verdict = You_win | I_win | Tie

definition compare_rolls :: "int \<Rightarrow> int \<Rightarrow> state \<Rightarrow> verdict \<times> state" where
  "compare_rolls comp_roll user_roll s =
     (let s1 = emit [Print (''My throw is '' @ py_str comp_roll @ ''.''),
                     Print (''Your throw is '' @ py_str user_roll @ ''.'')] s
      in if user_roll > comp_roll then (You_win, emit [Print ''You win!''] s1)
         else if user_roll < comp_roll then (I_win, emit [Print ''I win!''] s1)
         else (Tie, emit [Print ''It's a tie!''] s1))"

definition play_round ::
  "source \<Rightarrow> string list \<Rightarrow> state \<Rightarrow> (error + verdict) \<times> string list \<times> state" where
  "play_round src ins s =
     (case determine_first_turn src ins s of
        (Inl e, ins1, s1) \<Rightarrow> (Inl e, ins1, s1)
      | (Inr first_turn, ins1, s1) \<Rightarrow>
          (case assign_dice src first_turn ins1 s1 of
             (Inl e, ins2, s2) \<Rightarrow> (Inl e, ins2, s2)
           | (Inr u, ins2, s2) \<Rightarrow>
               (case roll_dice src Computer 6 ins2 s2 of
                  (Inl e, ins3, s3) \<Rightarrow> (Inl e, ins3, s3)
                | (Inr comp_roll, ins3, s3) \<Rightarrow>
                    (case roll_dice src User 6 ins3 s3 of
                       (Inl e, ins4, s4) \<Rightarrow> (Inl e, ins4, s4)
                     | (Inr user_roll, ins4, s4) \<Rightarrow>
                         (case compare_rolls comp_roll user_roll s4 of
                            (v, s5) \<Rightarrow> (Inr v, ins4, s5))))))"

text \<open>
  The script: \<open>args\<close> is \<^verbatim>\<open>sys.argv[1:]\<close>, the result is how the process ends and what the
  terminal has seen.
\<close>

definition main :: "source \<Rightarrow> string list \<Rightarrow> string list \<Rightarrow> (error + verdict) \<times> event list" where
  "main src args ins =
     (if length args + 1 < 4 then (Inl (SystemExit 1), usage)
      else case DiceGame args of
             Inl (e, printed) \<Rightarrow> (Inl e, printed)
           | Inr game \<Rightarrow>
               (case play_round src ins game of (r, ins1, s1) \<Rightarrow> (r, out s1)))"

section \<open>A test double for the random source\<close>

text \<open>
  \<open>test_source es\<close> replaces the secure source in examples: the \<open>t\<close>-th draw takes its
  entropy from the list \<open>es\<close> (\<open>0\<close> past its end), the \<open>t\<close>-th key is the text \<open>key\<close>
  followed by \<open>t\<close>, and the digest is a readable stand-in that writes its two arguments down.
\<close>

definition test_source :: "nat list \<Rightarrow> source" where
  "test_source es =
     \<lparr>token_bytes = (\<lambda>t. ''key'' @ str_nat t),
      entropy = (\<lambda>t. if t < length es then es ! t else 0),
      hmac_sha3_256 = (\<lambda>key msg. ''H('' @ hex key @ '','' @ msg @ '')'')\<rparr>"

section \<open>Notions used to state the properties\<close>

text \<open>
  \<open>example_game\<close> is the game built from the three dice \<open>2,2,4,4,9,9\<close>, \<open>1,1,6,6,8,8\<close> and
  \<open>3,3,5,5,7,7\<close>. \<open>drawn src t limit\<close> is the triple \<^verbatim>\<open>generate_secure_random(limit)\<close>
  returns at draw \<open>t\<close> when \<open>limit\<close> is positive.
\<close>

definition example_game :: state where
  "example_game =
     \<lparr>dice = [\<lparr>faces = [2, 2, 4, 4, 9, 9]\<rparr>, \<lparr>faces = [1, 1, 6, 6, 8, 8]\<rparr>,
              \<lparr>faces = [3, 3, 5, 5, 7, 7]\<rparr>],
      user_choice = None, computer_choice = None, out = [], tick = 0\<rparr>"

definition drawn :: "source \<Rightarrow> nat \<Rightarrow> int \<Rightarrow> int \<times> string \<times> string" where
  "drawn src t limit =
     (int (entropy src t) mod limit, hex (token_bytes src t),
      hmac_sha3_256 src (token_bytes src t) (py_str (int (entropy src t) mod limit)))"

text \<open>
  At the first-move prompt a line is accepted as a guess, or is the exit request \<open>2\<close>, or
  is rejected and the step starts over; likewise at a roll prompt, where the exit request
  is the text of the modulus. \<open>first_turn_retry\<close> and \<open>roll_retry\<close> are the states in
  which the step starts over after a rejected line: the prompt, the line and the
  diagnostic have been added to the terminal and one draw has been used.
\<close>

definition guess_accepted :: "string \<Rightarrow> bool" where
  "guess_accepted l = (l \<noteq> ''2'' \<and> isdigit l \<and> (py_int l = Some 0 \<or> py_int l = Some 1))"

definition guess_retried :: "string \<Rightarrow> bool" where
  "guess_retried l = (l \<noteq> ''2'' \<and> \<not> (isdigit l \<and> (py_int l = Some 0 \<or> py_int l = Some 1)))"

definition first_turn_retry :: "source \<Rightarrow> string \<Rightarrow> state \<Rightarrow> state" where
  "first_turn_retry src l s =
     emit [Print ''Let's determine who makes the first move.'',
           Print_hmac 1 (snd (snd (drawn src (tick s) 2))),
           Print ''Try to guess my selection.'',
           Print first_turn_menu,
           Input l,
           Print ''Invalid input! Please enter 0 or 1.''] (next_tick s)"

definition add_accepted :: "int \<Rightarrow> string \<Rightarrow> bool" where
  "add_accepted modulo' l =
     (l \<noteq> py_str modulo' \<and> isdigit l
      \<and> (case py_int l of None \<Rightarrow> False | Some a \<Rightarrow> 0 \<le> a \<and> a < modulo'))"

definition add_retried :: "int \<Rightarrow> string \<Rightarrow> bool" where
  "add_retried modulo' l =
     (l \<noteq> py_str modulo'
      \<and> \<not> (isdigit l \<and> (case py_int l of None \<Rightarrow> False | Some a \<Rightarrow> 0 \<le> a \<and> a < modulo')))"

definition roll_prompt :: "source \<Rightarrow> player \<Rightarrow> int \<Rightarrow> nat \<Rightarrow> event list" where
  "roll_prompt src player modulo' t =
     [Print (''It's time for '' @ name player @ [CHR 0x27] @ ''s throw.''),
      Print_hmac (modulo' - 1) (snd (snd (drawn src t modulo'))),
      Print ''Choose a number to add (modulo {modulo}):'']
     @ roll_menu modulo'"

definition roll_retry :: "source \<Rightarrow> player \<Rightarrow> int \<Rightarrow> string \<Rightarrow> state \<Rightarrow> state" where
  "roll_retry src player modulo' l s =
     emit (roll_prompt src player modulo' (tick s)
           @ [Input l, Print ''Invalid selection. Try again.'']) (next_tick s)"

text \<open>
  The order of a commit-reveal exchange, read off the terminal. A published tag
  (\<open>Print_hmac\<close>) opens an exchange; the next line read fixes the counterpart's
  contribution; a key (\<open>Print_key\<close>) may be shown only then, and it must be the key of
  the published tag: the digest \<open>hm\<close> of the shown number under the shown key is that tag.
  \<open>exchange_run\<close> is \<open>None\<close> as soon as a key is shown out of turn.
\<close>

datatype phase = Idle | Committed string | Fixed string

fun exchange_step :: "(string \<Rightarrow> string \<Rightarrow> string) \<Rightarrow> phase \<Rightarrow> event \<Rightarrow> phase option" where
  "exchange_step hm p (Print_hmac hi tag) = Some (Committed tag)"
| "exchange_step hm (Committed tag) (Input l) = Some (Fixed tag)"
| "exchange_step hm (Fixed tag) (Print_key n key) =
     (if map_option (\<lambda>kb. hm kb (py_str n)) (fromhex key) = Some tag then Some Idle else None)"
| "exchange_step hm p (Print_key n key) = None"
| "exchange_step hm p e = Some p"

fun exchange_run :: "(string \<Rightarrow> string \<Rightarrow> string) \<Rightarrow> phase \<Rightarrow> event list \<Rightarrow> phase option" where
  "exchange_run hm p [] = Some p"
| "exchange_run hm p (e # es) =
     (case exchange_step hm p e of None \<Rightarrow> None | Some q \<Rightarrow> exchange_run hm q es)"

text \<open>
  Notions for the proofs. A line is accepted at the dice menu when it is all digits and
  names an entry. \<open>is_key\<close> recognises the line that shows a key; \<open>quiet_step s s'\<close>
  says that the terminal of \<open>s'\<close> continues that of \<open>s\<close> without showing a key, and
  \<open>ordered_step hm s s'\<close> that it continues it by events that keep the order of the
  exchange from whatever phase they start in. \<open>same_game s t\<close>: the two states differ
  at most in what the terminal has seen.
\<close>

definition choice_accepted :: "nat \<Rightarrow> string \<Rightarrow> bool" where
  "choice_accepted n l =
     (isdigit l \<and> (case py_int l of None \<Rightarrow> False | Some v \<Rightarrow> 0 \<le> v \<and> v < int n))"

fun is_key :: "event \<Rightarrow> bool" where
  "is_key (Print_key n key) = True"
| "is_key e = False"

definition quiet_step :: "state \<Rightarrow> state \<Rightarrow> bool" where
  "quiet_step s s' = (\<exists>es. out s' = out s @ es \<and> list_all (\<lambda>e. \<not> is_key e) es)"

definition ordered_step :: "(string \<Rightarrow> string \<Rightarrow> string) \<Rightarrow> state \<Rightarrow> state \<Rightarrow> bool" where
  "ordered_step hm s s' = (\<exists>es. out s' = out s @ es \<and> (\<forall>p. exchange_run hm p es \<noteq> None))"

definition same_game :: "state \<Rightarrow> state \<Rightarrow> bool" where
  "same_game s t =
     (dice s = dice t \<and> user_choice s = user_choice t
      \<and> computer_choice s = computer_choice t \<and> tick s = tick t)"

section \<open>Facts about the Python operations\<close>

lemma hex_val_hex_digit: "d < 16 \<Longrightarrow> hex_val (hex_digit d) = Some d"
  by (auto simp: hex_val_def hex_digit_def Let_def)

lemma of_char_div_16: "(of_char b :: nat) div 16 < 16"
proof -
  have "(of_char b :: nat) \<in> range of_char" by simp
  then have "(of_char b :: nat) < 256" unfolding range_nat_of_char by simp
  then show ?thesis by arith
qed

lemma fromhex_hex: "fromhex (hex bs) = Some bs"
proof (induction bs)
  case Nil
  show ?case by (simp add: hex_def)
next
  case (Cons b bs)
  have "hex (b # bs) = hex_digit (of_char b div 16) # hex_digit (of_char b mod 16) # hex bs"
    by (simp add: hex_def)
  then show ?case
    using Cons by (simp add: hex_val_hex_digit of_char_div_16)
qed

lemma is_digit_not_space: "is_digit c \<Longrightarrow> \<not> is_space c"
  by (auto simp: is_digit_def is_space_def)

lemma dropWhile_digits: "list_all is_digit s \<Longrightarrow> dropWhile is_space s = s"
  by (cases s) (auto simp: is_digit_not_space)

lemma strip_digits: "list_all is_digit s \<Longrightarrow> strip s = s"
proof -
  assume a: "list_all is_digit s"
  then have "list_all is_digit (rev s)" by (simp add: list_all_iff)
  then show ?thesis using a by (simp add: strip_def dropWhile_digits)
qed

lemma parse_digits_all: "list_all is_digit cs \<Longrightarrow> \<exists>n. parse_digits acc cs = Some n"
  by (induction cs arbitrary: acc) auto

lemma isdigit_py_int: "isdigit s \<Longrightarrow> \<exists>n. py_int s = Some (int n)"
proof -
  assume a: "isdigit s"
  then obtain c cs where s: "s = c # cs" by (cases s) (auto simp: isdigit_def)
  from a s have d: "is_digit c" "list_all is_digit cs" by (auto simp: isdigit_def)
  from d obtain n where n: "parse_digits (digit_val c) cs = Some n"
    using parse_digits_all by blast
  have "strip s = s" using a by (simp add: strip_digits isdigit_def)
  moreover have "c \<noteq> CHR ''-''" "c \<noteq> CHR ''+''" using d(1) by (auto simp: is_digit_def)
  ultimately show ?thesis using s d n by (simp add: py_int_def parse_nat_def)
qed

lemma is_digit_digit_char: "d < 10 \<Longrightarrow> is_digit (digit_char d)"
  by (simp add: is_digit_def digit_char_def)

lemma digit_val_digit_char: "d < 10 \<Longrightarrow> digit_val (digit_char d) = d"
  by (simp add: digit_val_def digit_char_def)

lemma str_nat_digits: "list_all is_digit (str_nat n) \<and> str_nat n \<noteq> []"
proof (induction n rule: str_nat.induct)
  case (1 n)
  show ?case
  proof (cases "n < 10")
    case True
    then show ?thesis by (simp add: str_nat.simps [of n] is_digit_digit_char)
  next
    case False
    with 1 show ?thesis by (simp add: str_nat.simps [of n] is_digit_digit_char)
  qed
qed

lemma parse_digits_foldl:
  "list_all is_digit cs \<Longrightarrow>
   parse_digits acc cs = Some (foldl (\<lambda>a c. 10 * a + digit_val c) acc cs)"
  by (induction cs arbitrary: acc) auto

lemma parse_nat_foldl:
  "list_all is_digit cs \<Longrightarrow> cs \<noteq> [] \<Longrightarrow>
   parse_nat cs = Some (foldl (\<lambda>a c. 10 * a + digit_val c) 0 cs)"
  by (cases cs) (simp_all add: parse_nat_def parse_digits_foldl)

lemma foldl_str_nat: "foldl (\<lambda>a c. 10 * a + digit_val c) 0 (str_nat n) = n"
proof (induction n rule: str_nat.induct)
  case (1 n)
  show ?case
  proof (cases "n < 10")
    case True
    then show ?thesis by (simp add: str_nat.simps [of n] digit_val_digit_char)
  next
    case False
    with 1 show ?thesis by (simp add: str_nat.simps [of n] digit_val_digit_char)
  qed
qed

lemma isdigit_py_str: "0 \<le> m \<Longrightarrow> isdigit (py_str m)"
  by (simp add: isdigit_def py_str_def str_nat_digits)

lemma py_int_py_str: "0 \<le> m \<Longrightarrow> py_int (py_str m) = Some m"
proof -
  assume m: "0 \<le> m"
  let ?s = "str_nat (nat m)"
  have d: "list_all is_digit ?s" "?s \<noteq> []" using str_nat_digits by auto
  then obtain c cs where s: "?s = c # cs" by (cases ?s) auto
  have c: "c \<noteq> CHR ''-''" "c \<noteq> CHR ''+''" using d(1) s by (auto simp: is_digit_def)
  have "parse_nat ?s = Some (nat m)" using d by (simp add: parse_nat_foldl foldl_str_nat)
  moreover have "strip ?s = ?s" using d by (simp add: strip_digits)
  ultimately have "py_int ?s = Some m" using s c m by (simp add: py_int_def)
  then show ?thesis using m by (simp add: py_str_def)
qed

lemma py_str_inj: "0 \<le> a \<Longrightarrow> 0 \<le> b \<Longrightarrow> py_str a = py_str b \<Longrightarrow> a = b"
  by (metis py_int_py_str option.inject)

section \<open>How the two steps unfold\<close>

lemma generate_drawn: "0 < limit \<Longrightarrow> generate_secure_random src t limit = Inr (drawn src t limit)"
  by (simp add: generate_secure_random_def randbelow_def drawn_def Let_def)

lemma emit_emit: "emit es (emit ds s) = emit (ds @ es) s"
  by (simp add: emit_def)

lemma emit_next_tick: "next_tick (emit es s) = emit es (next_tick s)"
  by (simp add: emit_def next_tick_def)

lemma tick_emit [simp]: "tick (emit es s) = tick s"
  by (simp add: emit_def)

lemma determine_first_turn_unfold:
  "determine_first_turn src ins s =
     first_turn_exchange src (drawn src (tick s) 2) ins
       (emit [Print ''Let's determine who makes the first move.''] (next_tick s))"
  by (simp add: determine_first_turn.simps generate_drawn emit_next_tick)

lemma first_turn_exchange_retried:
  assumes "guess_retried l"
  shows "first_turn_exchange src (n, key, tag) (l # rest) s =
     determine_first_turn src rest
       (emit [Print_hmac 1 tag, Print ''Try to guess my selection.'', Print first_turn_menu,
              Input l, Print ''Invalid input! Please enter 0 or 1.''] s)"
proof (cases "isdigit l")
  case False
  with assms show ?thesis
    by (simp add: first_turn_exchange.simps guess_retried_def emit_emit)
next
  case True
  then obtain v where v: "py_int l = Some (int v)" using isdigit_py_int by blast
  with True assms show ?thesis
    by (simp add: first_turn_exchange.simps guess_retried_def emit_emit)
qed

lemma first_turn_exchange_accepted:
  assumes "guess_accepted l"
  shows "first_turn_exchange src (n, key, tag) (l # rest) s =
     (Inr (if py_int l = Some n then User else Computer), rest,
      emit [Print_hmac 1 tag, Print ''Try to guess my selection.'', Print first_turn_menu,
            Input l, Print_key n key,
            Print (if py_int l = Some n then ''You guessed correctly! You go first.''
                   else ''I go first.'')] s)"
  using assms
  by (auto simp: first_turn_exchange.simps guess_accepted_def emit_emit)

lemma first_turn_exchange_exit:
  "first_turn_exchange src (n, key, tag) (''2'' # rest) s =
     (Inl (SystemExit 0), rest,
      emit [Print_hmac 1 tag, Print ''Try to guess my selection.'', Print first_turn_menu,
            Input ''2''] s)"
  by (simp add: first_turn_exchange.simps emit_emit)

lemma first_turn_exchange_eof:
  "first_turn_exchange src (n, key, tag) [] s =
     (Inl EOFError, [],
      emit [Print_hmac 1 tag, Print ''Try to guess my selection.'', Print first_turn_menu] s)"
  by (simp add: first_turn_exchange.simps)

lemma guess_cases: "l = ''2'' \<or> guess_retried l \<or> guess_accepted l"
  by (auto simp: guess_retried_def guess_accepted_def)

lemma determine_first_turn_retried:
  assumes "guess_retried l"
  shows "determine_first_turn src (l # rest) s = determine_first_turn src rest (first_turn_retry src l s)"
  using assms
  by (simp add: determine_first_turn_unfold [of src "l # rest"] drawn_def
      first_turn_exchange_retried first_turn_retry_def emit_emit)

lemma tick_first_turn_retry [simp]: "tick (first_turn_retry src l s) = Suc (tick s)"
  by (simp add: first_turn_retry_def next_tick_def)

lemma determine_first_turn_retries:
  "list_all guess_retried bad \<Longrightarrow>
   \<exists>s'. tick s' = tick s + length bad
     \<and> determine_first_turn src (bad @ ins) s = determine_first_turn src ins s'"
proof (induction bad arbitrary: s)
  case Nil
  then show ?case by auto
next
  case (Cons l bad)
  then obtain s' where "tick s' = tick (first_turn_retry src l s) + length bad"
    "determine_first_turn src (bad @ ins) (first_turn_retry src l s) = determine_first_turn src ins s'"
    by fastforce
  with Cons.prems show ?case
    by (auto simp: determine_first_turn_retried)
qed

lemma roll_dice_unfold:
  "0 < modulo' \<Longrightarrow>
   roll_dice src player modulo' ins s =
     roll_exchange src player modulo' (drawn src (tick s) modulo') ins
       (emit [Print (''It's time for '' @ name player @ [CHR 0x27] @ ''s throw.'')] (next_tick s))"
  by (simp add: roll_dice.simps generate_drawn emit_next_tick)

lemma roll_exchange_retried:
  assumes "add_retried modulo' l"
  shows "roll_exchange src player modulo' (face, key, tag) (l # rest) s =
     roll_dice src player modulo' rest
       (emit ([Print_hmac (modulo' - 1) tag, Print ''Choose a number to add (modulo {modulo}):'']
              @ roll_menu modulo' @ [Input l, Print ''Invalid selection. Try again.'']) s)"
proof (cases "isdigit l")
  case False
  with assms show ?thesis
    by (simp add: roll_exchange.simps add_retried_def emit_emit)
next
  case True
  then obtain v where v: "py_int l = Some (int v)" using isdigit_py_int by blast
  with True assms show ?thesis
    by (simp add: roll_exchange.simps add_retried_def emit_emit)
qed

lemma roll_dice_retried:
  assumes "0 < modulo'" and "add_retried modulo' l"
  shows "roll_dice src player modulo' (l # rest) s =
     roll_dice src player modulo' rest (roll_retry src player modulo' l s)"
  using assms
  by (simp add: roll_dice_unfold [of modulo' src player "l # rest"] drawn_def
      roll_exchange_retried roll_retry_def roll_prompt_def emit_emit)

lemma help_guess_retried: "guess_retried ''3''"
  by code_simp

lemma help_add_retried: "0 < modulo' \<Longrightarrow> add_retried modulo' (py_str (modulo' + 1))"
proof -
  assume m: "0 < modulo'"
  have "py_str (modulo' + 1) \<noteq> py_str modulo'"
    using py_str_inj [of "modulo' + 1" modulo'] m by auto
  then show ?thesis using m by (simp add: add_retried_def py_int_py_str)
qed

section \<open>The other prompts\<close>

lemma roll_exchange_exit:
  "roll_exchange src p m (face, key, tag) (py_str m # rest) s =
     (Inl (SystemExit 0), rest,
      emit ([Print_hmac (m - 1) tag, Print ''Choose a number to add (modulo {modulo}):'']
            @ roll_menu m @ [Input (py_str m)]) s)"
  by (simp add: roll_exchange.simps emit_emit)

lemma roll_exchange_eof:
  "roll_exchange src p m (face, key, tag) [] s =
     (Inl EOFError, [],
      emit ([Print_hmac (m - 1) tag, Print ''Choose a number to add (modulo {modulo}):'']
            @ roll_menu m) s)"
  by (simp add: roll_exchange.simps)

lemma thrown_emit: "thrown p (emit es s) x = thrown p s x"
  by (cases p) (simp_all add: thrown_def emit_def split: option.splits)

lemma roll_exchange_accepted:
  assumes "add_accepted m l"
  shows "roll_exchange src p m (face, key, tag) (l # rest) s =
     (thrown p s ((the (py_int l) + face) mod m), rest,
      emit ([Print_hmac (m - 1) tag, Print ''Choose a number to add (modulo {modulo}):'']
            @ roll_menu m
            @ [Input l, Print_key face key,
               Print (''The result is '' @ py_str face @ '' + '' @ py_str (the (py_int l))
                      @ '' = '' @ py_str ((the (py_int l) + face) mod m)
                      @ '' (mod '' @ py_str m @ '').'')]) s)"
proof -
  from assms obtain a where a: "py_int l = Some a" "0 \<le> a" "a < m" "isdigit l" "l \<noteq> py_str m"
    by (auto simp: add_accepted_def split: option.splits)
  from a show ?thesis
    by (simp add: roll_exchange.simps compute_modular_result_def py_mod_def emit_emit thrown_emit)
qed

lemma add_cases: "l = py_str m \<or> add_retried m l \<or> add_accepted m l"
  by (auto simp: add_retried_def add_accepted_def)

lemma out_emit [simp]: "out (emit es s) = out s @ es"
  by (simp add: emit_def)

lemma out_next_tick [simp]: "out (next_tick s) = out s"
  by (simp add: next_tick_def)

lemma out_set_dice_choice [simp]: "out (set_dice_choice p c s) = out s"
  by (cases p) simp_all

lemma choose_dice_retried:
  assumes "\<not> choice_accepted (length av) l"
  shows "choose_dice p av (l # rest) s =
     choose_dice p av rest
       (emit (Print (name p @ '', choose your dice:'') # dice_menu av
              @ [Input l, Print ''Invalid selection. Try again.'']) s)"
proof (cases "isdigit l")
  case False
  then show ?thesis
    by (simp add: choose_dice.simps [of p av "l # rest"] emit_emit)
next
  case True
  then obtain v where v: "py_int l = Some (int v)" using isdigit_py_int by blast
  with True assms show ?thesis
    by (simp add: choose_dice.simps [of p av "l # rest"] choice_accepted_def emit_emit)
qed

lemma choose_dice_accepted:
  assumes "choice_accepted (length av) l"
  shows "choose_dice p av (l # rest) s =
     (Inr (), rest,
      emit [Print (name p @ '' chose dice: '' @ py_repr (faces (av ! nat (the (py_int l)))))]
        (set_dice_choice p (nat (the (py_int l)))
          (emit (Print (name p @ '', choose your dice:'') # dice_menu av @ [Input l]) s)))"
proof -
  from assms obtain v where v: "py_int l = Some v" "0 \<le> v" "v < int (length av)" "isdigit l"
    by (auto simp: choice_accepted_def split: option.splits)
  then show ?thesis
    by (simp add: choose_dice.simps [of p av "l # rest"] py_index_def emit_emit)
qed

lemma choose_dice_eof:
  "choose_dice p av [] s =
     (Inl EOFError, [], emit (Print (name p @ '', choose your dice:'') # dice_menu av) s)"
  by (simp add: choose_dice.simps [of p av "[]"])

section \<open>The constructor\<close>

lemma ints_of_eq:
  "ints_of xs =
     (if list_all (\<lambda>x. py_int x \<noteq> None) xs then Inr (map (\<lambda>x. the (py_int x)) xs)
      else Inl ValueError)"
  by (induction xs) (auto split: option.splits)

lemma dice_of_eq:
  "dice_of ds =
     (if list_all (\<lambda>d. list_all (\<lambda>x. case py_int x of None \<Rightarrow> False | Some v \<Rightarrow> 0 \<le> v)
                          (split_on CHR '','' d)) ds
      then Inr (map (\<lambda>d. \<lparr>faces = map (\<lambda>x. the (py_int x)) (split_on CHR '','' d)\<rparr>) ds)
      else Inl ValueError)"
proof (induction ds)
  case Nil
  show ?case by simp
next
  case (Cons d ds)
  let ?xs = "split_on CHR '','' d"
  have a: "list_all (\<lambda>x. case py_int x of None \<Rightarrow> False | Some v \<Rightarrow> 0 \<le> v) ?xs
      \<longleftrightarrow> list_all (\<lambda>x. py_int x \<noteq> None) ?xs
          \<and> list_all (\<lambda>v. 0 \<le> v) (map (\<lambda>x. the (py_int x)) ?xs)"
    by (auto simp: list_all_iff split: option.splits)
  show ?case
    using Cons a by (auto simp: ints_of_eq Dice_def)
qed

lemma well_formed_example:
  "list_all (\<lambda>d. list_all (\<lambda>x. case py_int x of None \<Rightarrow> False | Some v \<Rightarrow> 0 \<le> v)
                               (split_on CHR '','' d)) [''1,2,3'', ''4,5'', ''6,7,8,9'']"
  by code_simp

lemma ill_formed_example:
  "\<not> list_all (\<lambda>d. list_all (\<lambda>x. case py_int x of None \<Rightarrow> False | Some v \<Rightarrow> 0 \<le> v)
                               (split_on CHR '','' d)) [''1,2,3'', ''4,-5,6'', ''7,8,9'']"
  by code_simp

lemma ill_formed_example2:
  "\<not> list_all (\<lambda>d. list_all (\<lambda>x. case py_int x of None \<Rightarrow> False | Some v \<Rightarrow> 0 \<le> v)
                               (split_on CHR '','' d)) [''1,2,3'', ''4,x,6'', ''7,8,9'']"
  by code_simp

section \<open>The order of the events on the terminal\<close>

lemma exchange_step_Print [simp]: "exchange_step hm p (Print x) = Some p"
  by (cases p) simp_all

lemma exchange_step_Print_exception [simp]: "exchange_step hm p (Print_exception x) = Some p"
  by (cases p) simp_all

lemma exchange_step_Input [simp]:
  "exchange_step hm p (Input l) = Some (case p of Committed tag \<Rightarrow> Fixed tag | _ \<Rightarrow> p)"
  by (cases p) simp_all

lemma exchange_step_not_key: "\<not> is_key e \<Longrightarrow> exchange_step hm p e \<noteq> None"
  by (cases e) simp_all

lemma exchange_run_append:
  "exchange_run hm p (es @ fs) =
     (case exchange_run hm p es of None \<Rightarrow> None | Some q \<Rightarrow> exchange_run hm q fs)"
  by (induction es arbitrary: p) (auto split: option.splits)

lemma exchange_run_not_key:
  "list_all (\<lambda>e. \<not> is_key e) es \<Longrightarrow> exchange_run hm p es \<noteq> None"
proof (induction es arbitrary: p)
  case Nil
  show ?case by simp
next
  case (Cons e es)
  then obtain q where "exchange_step hm p e = Some q"
    using exchange_step_not_key [of e hm p] by auto
  with Cons show ?case by simp
qed

lemma quiet_ordered: "quiet_step s s' \<Longrightarrow> ordered_step hm s s'"
  unfolding quiet_step_def ordered_step_def using exchange_run_not_key by blast

lemma quiet_refl: "quiet_step s s"
  by (simp add: quiet_step_def)

lemma quiet_trans: "quiet_step s t \<Longrightarrow> quiet_step t u \<Longrightarrow> quiet_step s u"
  by (auto simp: quiet_step_def)

lemma ordered_refl: "ordered_step hm s s"
  by (simp add: ordered_step_def)

lemma ordered_trans: "ordered_step hm s t \<Longrightarrow> ordered_step hm t u \<Longrightarrow> ordered_step hm s u"
proof -
  assume "ordered_step hm s t" and "ordered_step hm t u"
  then obtain es fs where a: "out t = out s @ es" "\<forall>p. exchange_run hm p es \<noteq> None"
    and b: "out u = out t @ fs" "\<forall>p. exchange_run hm p fs \<noteq> None"
    by (auto simp: ordered_step_def)
  have "\<forall>p. exchange_run hm p (es @ fs) \<noteq> None"
    using a(2) b(2) by (auto simp: exchange_run_append split: option.splits)
  then show ?thesis using a(1) b(1) by (auto simp: ordered_step_def)
qed

lemma quiet_emit: "list_all (\<lambda>e. \<not> is_key e) es \<Longrightarrow> quiet_step s (emit es s)"
  by (auto simp: quiet_step_def)

lemma quiet_same_out: "out s' = out s \<Longrightarrow> quiet_step s s'"
  by (simp add: quiet_step_def)

lemma dice_menu_quiet: "list_all (\<lambda>e. \<not> is_key e) (dice_menu av)"
  by (auto simp: dice_menu_def list_all_iff)

lemma roll_menu_quiet: "list_all (\<lambda>e. \<not> is_key e) (roll_menu m)"
  by (auto simp: roll_menu_def list_all_iff)

lemma choose_dice_quiet: "quiet_step s (snd (snd (choose_dice p av ins s)))"
proof (induction ins arbitrary: s)
  case Nil
  show ?case by (simp add: choose_dice_eof quiet_emit dice_menu_quiet)
next
  case (Cons l rest)
  show ?case
  proof (cases "choice_accepted (length av) l")
    case True
    then show ?thesis
      by (simp add: choose_dice_accepted quiet_step_def dice_menu_quiet)
  next
    case False
    let ?s1 = "emit (Print (name p @ '', choose your dice:'') # dice_menu av
              @ [Input l, Print ''Invalid selection. Try again.'']) s"
    have "quiet_step s ?s1" by (simp add: quiet_emit dice_menu_quiet)
    then show ?thesis
      using False Cons [of ?s1] by (auto simp: choose_dice_retried intro: quiet_trans)
  qed
qed

lemma drawn_tag:
  "drawn src t limit = (n, key, tag) \<Longrightarrow>
   map_option (\<lambda>kb. hmac_sha3_256 src kb (py_str n)) (fromhex key) = Some tag"
  by (auto simp: drawn_def fromhex_hex)

lemma determine_first_turn_ordered:
  "ordered_step (hmac_sha3_256 src) s (snd (snd (determine_first_turn src ins s)))"
proof (induction ins arbitrary: s)
  case Nil
  obtain n key tag where d: "drawn src (tick s) 2 = (n, key, tag)"
    by (cases "drawn src (tick s) 2") auto
  then show ?case
    by (simp add: determine_first_turn_unfold [of src "[]"] first_turn_exchange_eof ordered_step_def)
next
  case (Cons l rest)
  obtain n key tag where d: "drawn src (tick s) 2 = (n, key, tag)"
    by (cases "drawn src (tick s) 2") auto
  consider "l = ''2''" | "guess_retried l" | "guess_accepted l" using guess_cases by blast
  then show ?case
  proof cases
    case 1
    then show ?thesis using d
      by (simp add: determine_first_turn_unfold [of src "''2'' # rest"] first_turn_exchange_exit
          ordered_step_def)
  next
    case 2
    have "ordered_step (hmac_sha3_256 src) s (first_turn_retry src l s)"
      by (simp add: first_turn_retry_def ordered_step_def)
    then show ?thesis
      using 2 Cons [of "first_turn_retry src l s"]
      by (auto simp: determine_first_turn_retried intro: ordered_trans)
  next
    case 3
    then show ?thesis using d drawn_tag [OF d]
      by (simp add: determine_first_turn_unfold [of src "l # rest"] first_turn_exchange_accepted
          ordered_step_def)
  qed
qed

lemma exchange_run_prints: "list_all (\<lambda>e. \<exists>x. e = Print x) es \<Longrightarrow> exchange_run hm p es = Some p"
  by (induction es) auto

lemma exchange_run_roll_menu [simp]: "exchange_run hm p (roll_menu m) = Some p"
  by (rule exchange_run_prints) (auto simp: roll_menu_def list_all_iff)

lemma roll_dice_ordered:
  assumes "0 < m"
  shows "ordered_step (hmac_sha3_256 src) s (snd (snd (roll_dice src p m ins s)))"
proof (induction ins arbitrary: s)
  case Nil
  obtain n key tag where d: "drawn src (tick s) m = (n, key, tag)"
    by (cases "drawn src (tick s) m") auto
  then show ?case
    by (simp add: roll_dice_unfold [OF assms, of src p "[]"] roll_exchange_eof ordered_step_def
        exchange_run_append)
next
  case (Cons l rest)
  obtain n key tag where d: "drawn src (tick s) m = (n, key, tag)"
    by (cases "drawn src (tick s) m") auto
  consider "l = py_str m" | "add_retried m l" | "add_accepted m l" using add_cases by blast
  then show ?case
  proof cases
    case 1
    then show ?thesis using d
      by (simp add: roll_dice_unfold [OF assms, of src p "py_str m # rest"] roll_exchange_exit
          ordered_step_def exchange_run_append)
  next
    case 2
    have "ordered_step (hmac_sha3_256 src) s (roll_retry src p m l s)"
      by (simp add: roll_retry_def roll_prompt_def ordered_step_def exchange_run_append)
    then show ?thesis
      using 2 Cons [of "roll_retry src p m l s"] assms
      by (auto simp: roll_dice_retried intro: ordered_trans)
  next
    case 3
    then show ?thesis using d drawn_tag [OF d]
      by (simp add: roll_dice_unfold [OF assms, of src p "l # rest"] roll_exchange_accepted
          ordered_step_def exchange_run_append)
  qed
qed

lemma choose_dice_quiet_from:
  "quiet_step s t \<Longrightarrow> quiet_step s (snd (snd (choose_dice p av ins t)))"
  using choose_dice_quiet quiet_trans by blast

lemma assign_dice_quiet: "quiet_step s (snd (snd (assign_dice src first_turn ins s)))"
proof (cases "first_turn = Computer")
  case True
  let ?s1 = "emit [Print ''I make the first move and choose a dice.''] s"
  have q1: "quiet_step s ?s1" by (simp add: quiet_emit)
  show ?thesis
  proof (cases "random_choice src (tick ?s1) [0..<length (dice ?s1)]")
    case (Inl e)
    with True q1 show ?thesis by (simp add: assign_dice_def Let_def)
  next
    case (Inr c)
    let ?s2 = "set_dice_choice Computer c (next_tick ?s1)"
    have q2: "quiet_step s ?s2" by (simp add: quiet_step_def)
    show ?thesis
    proof (cases "py_index (dice ?s2) (int c)")
      case (Inl e)
      with True Inr q2 show ?thesis by (simp add: assign_dice_def Let_def)
    next
      case d: (Inr d)
      let ?s3 = "emit [Print (''I choose dice: '' @ py_repr (faces d))] ?s2"
      have q3: "quiet_step s ?s3" by (simp add: quiet_step_def)
      show ?thesis
      proof (cases "select (dice ?s3) (remove1 c [0..<length (dice ?s1)])")
        case (Inl e)
        with True Inr d q3 show ?thesis by (simp add: assign_dice_def Let_def)
      next
        case ds: (Inr ds)
        with True Inr d choose_dice_quiet_from [OF q3, of User ds ins] show ?thesis
          by (simp add: assign_dice_def Let_def)
      qed
    qed
  qed
next
  case False
  obtain r ins1 s1 where c: "choose_dice User (dice s) ins s = (r, ins1, s1)"
    by (cases "choose_dice User (dice s) ins s") auto
  have q1: "quiet_step s s1" using choose_dice_quiet [of s User "dice s" ins] c by simp
  show ?thesis
  proof (cases r)
    case (Inl e)
    with False c q1 show ?thesis by (simp add: assign_dice_def)
  next
    case u: (Inr u)
    show ?thesis
    proof (cases "random_choice src (tick s1)
                    (filter (\<lambda>i. Some i \<noteq> user_choice s1) [0..<length (dice s1)])")
      case (Inl e)
      with False c u q1 show ?thesis by (simp add: assign_dice_def Let_def)
    next
      case (Inr c')
      let ?s2 = "set_dice_choice Computer c' (next_tick s1)"
      have q2: "quiet_step s ?s2" using q1 by (simp add: quiet_step_def)
      show ?thesis
      proof (cases "py_index (dice ?s2) (int c')")
        case (Inl e)
        with False c u Inr q2 show ?thesis by (simp add: assign_dice_def Let_def)
      next
        case d: (Inr d)
        have "quiet_step s (emit [Print (''I choose dice: '' @ py_repr (faces d))] ?s2)"
          using q1 by (auto simp: quiet_step_def)
        with False c u Inr d show ?thesis by (simp add: assign_dice_def Let_def)
      qed
    qed
  qed
qed

lemma compare_rolls_quiet: "quiet_step s (snd (compare_rolls a b s))"
  by (simp add: compare_rolls_def Let_def quiet_step_def)

lemma play_round_ordered:
  "ordered_step (hmac_sha3_256 src) s (snd (snd (play_round src ins s)))"
proof -
  let ?hm = "hmac_sha3_256 src"
  obtain r1 i1 s1 where a: "determine_first_turn src ins s = (r1, i1, s1)"
    by (cases "determine_first_turn src ins s") auto
  have o1: "ordered_step ?hm s s1" using determine_first_turn_ordered [of src s ins] a by simp
  show ?thesis
  proof (cases r1)
    case (Inl e)
    with a o1 show ?thesis by (simp add: play_round_def)
  next
    case ft: (Inr first_turn)
    obtain r2 i2 s2 where b: "assign_dice src first_turn i1 s1 = (r2, i2, s2)"
      by (cases "assign_dice src first_turn i1 s1") auto
    have "ordered_step ?hm s1 s2"
      using assign_dice_quiet [of s1 src first_turn i1] b by (simp add: quiet_ordered)
    with o1 have o2: "ordered_step ?hm s s2" by (rule ordered_trans)
    show ?thesis
    proof (cases r2)
      case (Inl e)
      with a ft b o2 show ?thesis by (simp add: play_round_def)
    next
      case u: (Inr u)
      obtain r3 i3 s3 where c: "roll_dice src Computer 6 i2 s2 = (r3, i3, s3)"
        by (cases "roll_dice src Computer 6 i2 s2") auto
      have "ordered_step ?hm s2 s3"
        using roll_dice_ordered [of 6 src s2 Computer i2] c by simp
      with o2 have o3: "ordered_step ?hm s s3" by (rule ordered_trans)
      show ?thesis
      proof (cases r3)
        case (Inl e)
        with a ft b u c o3 show ?thesis by (simp add: play_round_def)
      next
        case cr: (Inr comp_roll)
        obtain r4 i4 s4 where d: "roll_dice src User 6 i3 s3 = (r4, i4, s4)"
          by (cases "roll_dice src User 6 i3 s3") auto
        have "ordered_step ?hm s3 s4"
          using roll_dice_ordered [of 6 src s3 User i3] d by simp
        with o3 have o4: "ordered_step ?hm s s4" by (rule ordered_trans)
        show ?thesis
        proof (cases r4)
          case (Inl e)
          with a ft b u c cr d o4 show ?thesis by (simp add: play_round_def)
        next
          case ur: (Inr user_roll)
          obtain v s5 where e: "compare_rolls comp_roll user_roll s4 = (v, s5)"
            by (cases "compare_rolls comp_roll user_roll s4") auto
          have "ordered_step ?hm s4 s5"
            using compare_rolls_quiet [of s4 comp_roll user_roll] e by (simp add: quiet_ordered)
          with o4 have "ordered_step ?hm s s5" by (rule ordered_trans)
          with a ft b u c cr d ur e show ?thesis by (simp add: play_round_def)
        qed
      qed
    qed
  qed
qed

section \<open>The published tag plays no part after it is printed\<close>

lemma same_game_emit: "same_game s t \<Longrightarrow> same_game (emit es s) (emit fs t)"
  by (simp add: same_game_def emit_def)

lemma same_game_next_tick: "same_game s t \<Longrightarrow> same_game (next_tick s) (next_tick t)"
  by (simp add: same_game_def next_tick_def)

lemma same_game_thrown: "same_game s t \<Longrightarrow> thrown p s x = thrown p t x"
  by (cases p) (auto simp: same_game_def thrown_def split: option.splits)

lemma same_game_refl: "same_game s s"
  by (simp add: same_game_def)

lemma first_turn_exchange_same:
  "same_game s t \<Longrightarrow>
   fst (first_turn_exchange src (n, key, tag) ins s)
     = fst (first_turn_exchange src (n, key, tag') ins t)
   \<and> fst (snd (first_turn_exchange src (n, key, tag) ins s))
     = fst (snd (first_turn_exchange src (n, key, tag') ins t))
   \<and> same_game (snd (snd (first_turn_exchange src (n, key, tag) ins s)))
       (snd (snd (first_turn_exchange src (n, key, tag') ins t)))"
proof (induction ins arbitrary: s t n key tag tag')
  case Nil
  then show ?case by (simp add: first_turn_exchange_eof same_game_emit)
next
  case (Cons l rest)
  consider "l = ''2''" | "guess_retried l" | "guess_accepted l" using guess_cases by blast
  then show ?case
  proof cases
    case 1
    with Cons.prems show ?thesis by (simp add: first_turn_exchange_exit same_game_emit)
  next
    case 2
    let ?s1 = "emit [Print_hmac 1 tag, Print ''Try to guess my selection.'', Print first_turn_menu,
              Input l, Print ''Invalid input! Please enter 0 or 1.''] s"
    let ?t1 = "emit [Print_hmac 1 tag', Print ''Try to guess my selection.'', Print first_turn_menu,
              Input l, Print ''Invalid input! Please enter 0 or 1.''] t"
    let ?s2 = "emit [Print ''Let's determine who makes the first move.''] (next_tick ?s1)"
    let ?t2 = "emit [Print ''Let's determine who makes the first move.''] (next_tick ?t1)"
    have g: "same_game ?s2 ?t2"
      using Cons.prems by (simp add: same_game_emit same_game_next_tick)
    have k: "tick ?s1 = tick ?t1" using Cons.prems by (simp add: same_game_def)
    obtain n' key' tag'' where d: "drawn src (tick ?t1) 2 = (n', key', tag'')"
      by (cases "drawn src (tick ?t1) 2") auto
    have a: "first_turn_exchange src (n, key, tag) (l # rest) s
        = first_turn_exchange src (n', key', tag'') rest ?s2"
      using 2 d k by (simp add: first_turn_exchange_retried determine_first_turn_unfold [of src rest])
    have b: "first_turn_exchange src (n, key, tag') (l # rest) t
        = first_turn_exchange src (n', key', tag'') rest ?t2"
      using 2 d by (simp add: first_turn_exchange_retried determine_first_turn_unfold [of src rest])
    show ?thesis
      unfolding a b by (rule Cons.IH [OF g])
  next
    case 3
    with Cons.prems show ?thesis by (simp add: first_turn_exchange_accepted same_game_emit)
  qed
qed

lemma roll_exchange_same:
  assumes "0 < m"
  shows "same_game s t \<Longrightarrow>
   fst (roll_exchange src p m (face, key, tag) ins s)
     = fst (roll_exchange src p m (face, key, tag') ins t)
   \<and> fst (snd (roll_exchange src p m (face, key, tag) ins s))
     = fst (snd (roll_exchange src p m (face, key, tag') ins t))
   \<and> same_game (snd (snd (roll_exchange src p m (face, key, tag) ins s)))
       (snd (snd (roll_exchange src p m (face, key, tag') ins t)))"
proof (induction ins arbitrary: s t face key tag tag')
  case Nil
  then show ?case by (simp add: roll_exchange_eof same_game_emit)
next
  case (Cons l rest)
  consider "l = py_str m" | "add_retried m l" | "add_accepted m l" using add_cases by blast
  then show ?case
  proof cases
    case 1
    with Cons.prems show ?thesis by (simp add: roll_exchange_exit same_game_emit)
  next
    case 2
    let ?s1 = "emit ([Print_hmac (m - 1) tag, Print ''Choose a number to add (modulo {modulo}):'']
              @ roll_menu m @ [Input l, Print ''Invalid selection. Try again.'']) s"
    let ?t1 = "emit ([Print_hmac (m - 1) tag', Print ''Choose a number to add (modulo {modulo}):'']
              @ roll_menu m @ [Input l, Print ''Invalid selection. Try again.'']) t"
    let ?s2 = "emit [Print (''It's time for '' @ name p @ [CHR 0x27] @ ''s throw.'')] (next_tick ?s1)"
    let ?t2 = "emit [Print (''It's time for '' @ name p @ [CHR 0x27] @ ''s throw.'')] (next_tick ?t1)"
    have g: "same_game ?s2 ?t2"
      using Cons.prems by (simp add: same_game_emit same_game_next_tick)
    have k: "tick ?s1 = tick ?t1" using Cons.prems by (simp add: same_game_def)
    obtain n' key' tag'' where d: "drawn src (tick ?t1) m = (n', key', tag'')"
      by (cases "drawn src (tick ?t1) m") auto
    have a: "roll_exchange src p m (face, key, tag) (l # rest) s
        = roll_exchange src p m (n', key', tag'') rest ?s2"
      using 2 d k by (simp add: roll_exchange_retried roll_dice_unfold [OF assms, of src p rest])
    have b: "roll_exchange src p m (face, key, tag') (l # rest) t
        = roll_exchange src p m (n', key', tag'') rest ?t2"
      using 2 d by (simp add: roll_exchange_retried roll_dice_unfold [OF assms, of src p rest])
    show ?thesis
      unfolding a b by (rule Cons.IH [OF g])
  next
    case 3
    with Cons.prems show ?thesis
      by (simp add: roll_exchange_accepted same_game_emit same_game_thrown [of s t])
  qed
qed

section \<open>A rejected line leaves the game as it was\<close>

lemma game_first_turn_retry:
  "dice (first_turn_retry src l s) = dice s
   \<and> user_choice (first_turn_retry src l s) = user_choice s
   \<and> computer_choice (first_turn_retry src l s) = computer_choice s"
  by (simp add: first_turn_retry_def emit_def next_tick_def)

lemma game_roll_retry:
  "dice (roll_retry src player m l s) = dice s
   \<and> user_choice (roll_retry src player m l s) = user_choice s
   \<and> computer_choice (roll_retry src player m l s) = computer_choice s"
  by (simp add: roll_retry_def emit_def next_tick_def)

section \<open>The Fair-Value Combiner\<close>

text \<open>
  Claim C8. For a positive modulus and operands in \<open>[0, modulus)\<close>,
  \<^verbatim>\<open>compute_modular_result\<close> returns \<open>(a + b) mod modulus\<close>, and that value lies in
  \<open>[0, modulus)\<close>.
\<close>

theorem compute_modular_result_range:
  "0 < m \<Longrightarrow> 0 \<le> a \<Longrightarrow> a < m \<Longrightarrow> 0 \<le> b \<Longrightarrow> b < m \<Longrightarrow>
   compute_modular_result a b m = Inr ((a + b) mod m) \<and> 0 \<le> (a + b) mod m \<and> (a + b) mod m < m"
  by (simp add: compute_modular_result_def py_mod_def)

theorem compute_modular_result_range_witness:
  "compute_modular_result 4 2 6 = Inr 0 \<and> compute_modular_result 1 5 6 = Inr 0
   \<and> compute_modular_result 3 2 6 = Inr 5"
  using compute_modular_result_range [of 6 4 2] compute_modular_result_range [of 6 1 5]
    compute_modular_result_range [of 6 3 2]
  by simp

section \<open>Dice.roll\<close>

text \<open>
  Claim C6 says that \<^verbatim>\<open>roll\<close> fails for every index outside \<open>[0, length)\<close>, negative
  ones included. The method is list indexing, so a negative index down to \<open>- length\<close>
  counts from the end: on the die \<open>2,2,4,4,9,9\<close> the index \<open>-1\<close> yields the last face.
\<close>

theorem roll_negative_index_counterexample:
  "roll \<lparr>faces = [2, 2, 4, 4, 9, 9]\<rparr> (- 1) = Inr 9
   \<and> roll \<lparr>faces = [2, 2, 4, 4, 9, 9]\<rparr> (- 1) \<noteq> Inl IndexError"
  by (simp add: roll_def py_index_def)

text \<open>
  Claim C6 as amended. \<^verbatim>\<open>roll(face_index)\<close> returns \<open>values[face_index]\<close> for
  \<open>0 \<le> face_index < length\<close>, returns \<open>values[face_index + length]\<close> for
  \<open>- length \<le> face_index < 0\<close>, and raises IndexError for every other index.
\<close>

theorem roll_index:
  "roll d face_index =
     (if 0 \<le> face_index \<and> face_index < int (length (faces d))
        then Inr (faces d ! nat face_index)
      else if - int (length (faces d)) \<le> face_index \<and> face_index < 0
        then Inr (faces d ! nat (face_index + int (length (faces d))))
      else Inl IndexError)"
  by (auto simp: roll_def py_index_def Let_def)

theorem roll_index_witness:
  "roll \<lparr>faces = [2, 2, 4, 4, 9, 9]\<rparr> 2 = Inr 4
   \<and> roll \<lparr>faces = [2, 2, 4, 4, 9, 9]\<rparr> (- 6) = Inr 2
   \<and> roll \<lparr>faces = [2, 2, 4, 4, 9, 9]\<rparr> 6 = Inl IndexError
   \<and> roll \<lparr>faces = [2, 2, 4, 4, 9, 9]\<rparr> (- 7) = Inl IndexError"
  using roll_index [of "\<lparr>faces = [2, 2, 4, 4, 9, 9]\<rparr>" 2]
    roll_index [of "\<lparr>faces = [2, 2, 4, 4, 9, 9]\<rparr>" "- 6"]
    roll_index [of "\<lparr>faces = [2, 2, 4, 4, 9, 9]\<rparr>" 6]
    roll_index [of "\<lparr>faces = [2, 2, 4, 4, 9, 9]\<rparr>" "- 7"]
  by simp

section \<open>The commitment engine\<close>

lemma generate_test_source:
  "generate_secure_random (test_source [4]) 0 6 = Inr (4, ''6b657930'', ''H(6b657930,4)'')"
  by code_simp

text \<open>
  Claim C9. Whenever \<^verbatim>\<open>generate_secure_random\<close> produces a triple of number, printed key
  and tag, reading the printed key back and recomputing the keyed digest of the number
  under it yields exactly the tag.
\<close>

theorem commit_reveal_round_trip:
  assumes "generate_secure_random src t limit = Inr (number, key, tag)"
  shows "map_option (\<lambda>kb. hmac_sha3_256 src kb (py_str number)) (fromhex key) = Some tag"
  using assms
  by (auto simp: generate_secure_random_def Let_def fromhex_hex split: sum.splits)

theorem commit_reveal_round_trip_witness:
  "generate_secure_random (test_source [4]) 0 6 = Inr (4, ''6b657930'', ''H(6b657930,4)'')
   \<and> map_option (\<lambda>kb. hmac_sha3_256 (test_source [4]) kb (py_str 4)) (fromhex ''6b657930'')
       = Some ''H(6b657930,4)''"
  using commit_reveal_round_trip [OF generate_test_source] generate_test_source by simp

section \<open>The first-move step\<close>



section \<open>The Help entry of the menus\<close>



section \<open>The configuration\<close>




section \<open>The dice the rolls are taken from\<close>

text \<open>
  When the user moves first, the user's choice is a position in the full pool and the
  computer chooses among the other positions, so the two dice differ. When the computer
  moves first, it takes the die at position \<open>c\<close> and the user's accepted line \<open>l\<close> is
  stored as it was typed, a position in the menu of the remaining dice: the two choices
  coincide whenever the user selects the entry \<open>c\<close> of that menu.
\<close>

lemma choose_dice_choice:
  "choose_dice p av ins s = (Inr u, ins', s') \<Longrightarrow>
   \<exists>v < length av. dice_choice p s' = Some v \<and> dice s' = dice s \<and> tick s' = tick s"
proof (induction ins arbitrary: s)
  case Nil
  then show ?case by (simp add: choose_dice_eof)
next
  case (Cons l rest)
  show ?case
  proof (cases "choice_accepted (length av) l")
    case True
    then obtain v where v: "py_int l = Some v" "0 \<le> v" "v < int (length av)"
      by (auto simp: choice_accepted_def split: option.splits)
    have "s' = emit [Print (name p @ '' chose dice: '' @ py_repr (faces (av ! nat v)))]
        (set_dice_choice p (nat v)
          (emit (Print (name p @ '', choose your dice:'') # dice_menu av @ [Input l]) s))"
      using Cons.prems True v by (simp add: choose_dice_accepted)
    then show ?thesis using v
      by (cases p) (auto simp: emit_def intro!: exI [of _ "nat v"])
  next
    case False
    let ?s1 = "emit (Print (name p @ '', choose your dice:'') # dice_menu av
              @ [Input l, Print ''Invalid selection. Try again.'']) s"
    have "choose_dice p av rest ?s1 = (Inr u, ins', s')"
      using Cons.prems False by (simp add: choose_dice_retried)
    from Cons.IH [OF this] show ?thesis
      by (cases p) (auto simp: emit_def)
  qed
qed

lemma user_first_distinct:
  assumes "assign_dice src User ins s = (Inr u, ins', s')"
  shows "\<exists>a b. user_choice s' = Some a \<and> computer_choice s' = Some b \<and> a \<noteq> b
           \<and> a < length (dice s) \<and> b < length (dice s)"
proof -
  obtain r ins1 s1 where c: "choose_dice User (dice s) ins s = (r, ins1, s1)"
    by (cases "choose_dice User (dice s) ins s") auto
  with assms obtain u' where r: "r = Inr u'"
    by (cases r) (auto simp: assign_dice_def)
  from choose_dice_choice [OF c [unfolded r]] obtain a where
    a: "a < length (dice s)" "user_choice s1 = Some a" "dice s1 = dice s"
    by auto
  let ?av = "filter (\<lambda>i. Some i \<noteq> user_choice s1) [0..<length (dice s1)]"
  from assms c r obtain b where b: "random_choice src (tick s1) ?av = Inr b"
    by (cases "random_choice src (tick s1) ?av") (auto simp: assign_dice_def Let_def)
  then have ne: "?av \<noteq> []" and "b = ?av ! (entropy src (tick s1) mod length ?av)"
    by (auto simp: random_choice_def split: if_splits)
  then have "b \<in> set ?av"
    by (metis length_greater_0_conv mod_less_divisor nth_mem)
  then have bb: "b < length (dice s)" "b \<noteq> a" using a by auto
  have "user_choice s' = Some a \<and> computer_choice s' = Some b"
    using assms c r b a
    by (auto simp: assign_dice_def Let_def emit_def next_tick_def split: sum.splits)
  with bb a show ?thesis by auto
qed

lemma computer_first_choices:
  assumes "choice_accepted (length (dice s) - 1) l" and "dice s \<noteq> []"
  shows "\<exists>s'. assign_dice src Computer (l # rest) s = (Inr (), rest, s')
     \<and> computer_choice s' = Some (entropy src (tick s) mod length (dice s))
     \<and> user_choice s' = Some (nat (the (py_int l)))"
proof -
  let ?n = "length (dice s)"
  let ?c = "entropy src (tick s) mod ?n"
  have n: "0 < ?n" using assms(2) by simp
  then have cn: "?c < ?n" by simp
  have rc: "random_choice src (tick s) [0..<?n] = Inr ?c"
    using n cn by (simp add: random_choice_def)
  have pi: "py_index (dice s) (int ?c) = Inr (dice s ! ?c)"
    using cn by (simp add: py_index_def)
  have sel: "\<And>is. \<forall>i \<in> set is. i < ?n \<Longrightarrow> select (dice s) is = Inr (map ((!) (dice s)) is)"
  proof -
    fix "is" show "\<forall>i \<in> set is. i < ?n \<Longrightarrow> select (dice s) is = Inr (map ((!) (dice s)) is)"
      by (induction "is") (auto simp: py_index_def)
  qed
  have len: "length (remove1 ?c [0..<?n]) = ?n - 1"
    using cn by (simp add: length_remove1)
  have sub: "\<forall>i \<in> set (remove1 ?c [0..<?n]). i < ?n"
    using set_remove1_subset [of ?c "[0..<?n]"] by auto
  show ?thesis
    using assms(1) rc pi sel [OF sub] len
    by (simp add: assign_dice_def Let_def emit_def next_tick_def choose_dice_accepted)
qed

text \<open>
  Claim C1 (the two players roll distinct dice) fails when the computer moves first.
  \<^verbatim>\<open>choose_dice\<close> stores the position of the user's selection in the reduced list it was
  shown, and \<^verbatim>\<open>roll_dice\<close> reads that position in the full pool. With the dice of
  \<open>example_game\<close>, the computer taking die 0 and the user selecting entry 0 of the
  reduced menu (the die \<open>1,1,6,6,8,8\<close>), both choices are 0: the user's throw is read
  from the computer's die and the round is a tie at 2 against 2.
\<close>

lemma computer_first_assignment:
  "(case assign_dice (test_source [0]) Computer [''0''] example_game of
      (r, ins, s) \<Rightarrow> (r, computer_choice s, user_choice s, out s))
   = (Inr (), Some 0, Some 0,
      [Print ''I make the first move and choose a dice.'',
       Print ''I choose dice: [2, 2, 4, 4, 9, 9]'',
       Print ''User, choose your dice:'',
       Print ''0 - [1, 1, 6, 6, 8, 8]'',
       Print ''1 - [3, 3, 5, 5, 7, 7]'',
       Input ''0'',
       Print ''User chose dice: [1, 1, 6, 6, 8, 8]''])"
  by code_simp

text \<open>
  Claim C1 at the failing input: the whole round, with the draws 1 (first move), 0 (the
  computer's die), 4 and 1 (the two rolls) and the user typing 0, 0, 2 and 5.
\<close>

theorem computer_first_same_die:
  "(case play_round (test_source [1, 0, 4, 1]) [''0'', ''0'', ''2'', ''5''] example_game of
      (r, ins, s) \<Rightarrow>
        (r, computer_choice s, user_choice s,
         List.member (out s) (Print ''User chose dice: [1, 1, 6, 6, 8, 8]''),
         rev (take 3 (rev (out s)))))
   = (Inr Tie, Some 0, Some 0, True,
      [Print ''My throw is 2.'', Print ''Your throw is 2.'', Print ''It's a tie!''])"
  by code_simp

section \<open>The modulus of a roll\<close>

text \<open>
  Claim C2 (the modulus of a roll is the face count of the player's die) fails:
  \<^verbatim>\<open>play_round\<close> calls \<^verbatim>\<open>roll_dice\<close> without a modulus, so it is always 6. With three dice
  of three faces the exchange is run over \<open>0..5\<close> and the index 5 is out of range.
\<close>

theorem three_faced_dice_index_error:
  "(case main (test_source [1, 0, 5, 1]) [''1,2,3'', ''4,5,6'', ''7,8,9'']
           [''0'', ''0'', ''0'', ''5''] of
      (r, printed) \<Rightarrow> (r, List.member printed (Print_hmac 5 ''H(6b657932,5)'')))
   = (Inl IndexError, True)"
  by code_simp

section \<open>The order of a commit-reveal exchange\<close>



lemma exchange_run_rejects_early_key:
  "exchange_run hm Idle [Print_hmac 1 tag, Print_key 0 key, Input ''0''] = None"
  by simp

section \<open>Verification of the commitment\<close>




end
